theory Spec2Isabelle
  imports Complex_Main "HOL-Library.Word"
begin

section \<open>JavaScript strings\<close>

text \<open>
  A JavaScript string is a sequence of 16-bit code units: \<open>length\<close>, \<open>slice\<close>,
  \<open>startsWith\<close> and the regular expression \<open>/^dc:/\<close> all count and compare code
  units. A string literal of the source is injected with \<open>lit\<close>.
\<close>

type_synonym code_unit = "16 word"
type_synonym jsstring = "code_unit list"

definition lit :: "string \<Rightarrow> jsstring" where
  "lit s = map of_char s"

text \<open>\<open>s.startsWith(search)\<close>: the first \<open>search.length\<close> code units of \<open>s\<close> are \<open>search\<close>.\<close>

definition startsWith :: "jsstring \<Rightarrow> jsstring \<Rightarrow> bool" where
  "startsWith s search = (length search \<le> length s \<and> take (length search) s = search)"

text \<open>
  \<open>jid.replace(/^dc:/, '')\<close>: the pattern is anchored at the start and has no \<open>g\<close>
  flag, so one match at most is replaced by the empty string.
\<close>

definition replace_dc :: "jsstring \<Rightarrow> jsstring" where
  "replace_dc jid = (if startsWith jid (lit ''dc:'') then drop 3 jid else jid)"

text \<open>Truthiness of a value that is a string, \<open>null\<close> or \<open>undefined\<close> (\<open>None\<close>).\<close>

definition truthy :: "jsstring option \<Rightarrow> bool" where
  "truthy v = (case v of None \<Rightarrow> False | Some s \<Rightarrow> s \<noteq> [])"

text \<open>\<open>a || b\<close> where \<open>b\<close> is a string: \<open>a\<close> when it is truthy, \<open>b\<close> otherwise.\<close>

definition or_else :: "jsstring option \<Rightarrow> jsstring \<Rightarrow> jsstring" where
  "or_else a b = (case a of None \<Rightarrow> b | Some s \<Rightarrow> if s \<noteq> [] then s else b)"


section \<open>Data model of the Discord adapter\<close>

definition MAX_MESSAGE_LENGTH :: nat where
  "MAX_MESSAGE_LENGTH = 2000"

datatype channel = TextChannel (channel_id: jsstring) (channel_name: jsstring) | OtherChannel

record user =
  bot_flag :: bool
  globalName :: "jsstring option"
  username :: jsstring
  user_id :: jsstring

record guild_member =
  displayName :: jsstring

text \<open>
  The platform's message event. \<open>createdAt\<close> holds the ISO-8601 rendering that
  \<open>message.createdAt.toISOString()\<close> returns.
\<close>

record message =
  message_id :: jsstring
  author :: user
  member_opt :: "guild_member option"
  guildId :: "jsstring option"
  channelId :: jsstring
  createdAt :: jsstring
  content :: jsstring
  channel :: channel

record inbound_message =
  inbound_id :: jsstring
  chat_jid :: jsstring
  sender :: jsstring
  sender_name :: jsstring
  inbound_content :: jsstring
  timestamp :: jsstring
  is_from_me :: bool
  is_bot_message :: bool

datatype client = Client

record adapter =
  client :: "client option"
  connected :: bool

datatype level = LogDebug | LogInfo | LogWarn | LogError

text \<open>
  Everything the adapter does to the outside is recorded, in order, as an event: the
  calls into the platform SDK (\<open>channels.fetch\<close>, \<open>channel.send\<close>,
  \<open>channel.sendTyping\<close>), the calls into the router's callbacks, and the log lines
  (level, chat identifier, message). The callbacks return \<open>void\<close> and are taken to
  return normally.
\<close>

text \<open>
  Modelled from the spec: the declaration of \<open>OnChatMetadata\<close> (\<open>types.js\<close>) is not
  part of the sources. Its parameters are, in order, chat identifier, timestamp, display
  name, platform tag and the direct-conversation flag \<open>isDirect\<close>; the handler passes
  five arguments in that order.
\<close>

datatype event =
    Fetch jsstring
  | Send channel jsstring
  | SendTyping channel
  | OnChatMetadata jsstring jsstring jsstring jsstring (isDirect: bool)
  | OnMessage jsstring inbound_message
  | Log level jsstring string

fun is_transport :: "event \<Rightarrow> bool" where
  "is_transport (Fetch _) = True"
| "is_transport (Send _ _) = True"
| "is_transport (SendTyping _) = True"
| "is_transport _ = False"

fun is_onChatMetadata :: "event \<Rightarrow> bool" where
  "is_onChatMetadata (OnChatMetadata _ _ _ _ _) = True"
| "is_onChatMetadata _ = False"

fun is_onMessage :: "event \<Rightarrow> bool" where
  "is_onMessage (OnMessage _ _) = True"
| "is_onMessage _ = False"

text \<open>
  The platform as the adapter sees it: what each SDK call answers, given the events of
  the current operation so far. A fetch resolves to a channel or to \<open>null\<close>, or
  rejects; a send or a typing hint resolves (\<open>True\<close>) or rejects (\<open>False\<close>).
\<close>

datatype fetch_result = FetchRejects | FetchNull | FetchChannel channel

record world =
  fetch :: "event list \<Rightarrow> jsstring \<Rightarrow> fetch_result"
  send :: "event list \<Rightarrow> channel \<Rightarrow> jsstring \<Rightarrow> bool"
  sendTyping :: "event list \<Rightarrow> channel \<Rightarrow> bool"

datatype error = FetchError | SendError | TypingError


section \<open>Outbound: ownership, sending and chunking\<close>

definition ownsJid :: "jsstring \<Rightarrow> bool" where
  "ownsJid jid = startsWith jid (lit ''dc:'')"

text \<open>The template literal \<open>`**${ASSISTANT_NAME}:** ${text}`\<close>; \<open>ASSISTANT_NAME\<close>
  comes from the configuration and is a parameter here.\<close>

definition assistant_prefix :: "jsstring \<Rightarrow> jsstring" where
  "assistant_prefix ASSISTANT_NAME = lit ''**'' @ ASSISTANT_NAME @ lit '':** ''"

definition prefixed_text :: "jsstring \<Rightarrow> jsstring \<Rightarrow> jsstring" where
  "prefixed_text ASSISTANT_NAME text = assistant_prefix ASSISTANT_NAME @ text"

text \<open>
  The splitting loop:
  \<^verbatim>\<open>while (remaining.length > 0) {
    chunks.push(remaining.slice(0, MAX_MESSAGE_LENGTH));
    remaining = remaining.slice(MAX_MESSAGE_LENGTH); }\<close>
\<close>

function chunk_loop :: "jsstring \<Rightarrow> jsstring list \<Rightarrow> jsstring list" where
  "chunk_loop remaining chunks =
     (if length remaining > 0
      then chunk_loop (drop MAX_MESSAGE_LENGTH remaining)
                      (chunks @ [take MAX_MESSAGE_LENGTH remaining])
      else chunks)"
  by pat_completeness auto
termination
  by (relation "measure (\<lambda>(remaining, chunks). length remaining)")
     (auto simp: MAX_MESSAGE_LENGTH_def)

text \<open>The messages one \<open>sendMessage\<close> hands to \<open>channel.send\<close>, in order.\<close>

definition outbound_messages :: "jsstring \<Rightarrow> jsstring list" where
  "outbound_messages prefixed =
     (if length prefixed \<le> MAX_MESSAGE_LENGTH then [prefixed] else chunk_loop prefixed [])"

text \<open>\<open>await channel.send(c)\<close> for each message in turn; a rejection ends the loop.\<close>

fun send_each :: "world \<Rightarrow> channel \<Rightarrow> event list \<Rightarrow> jsstring list \<Rightarrow> (error + unit) \<times> event list" where
  "send_each w ch tr [] = (Inr (), tr)"
| "send_each w ch tr (c # cs) =
     (if send w tr ch c then send_each w ch (tr @ [Send ch c]) cs
      else (Inl SendError, tr @ [Send ch c]))"

text \<open>The body of the \<open>try\<close> block of \<open>sendMessage\<close>; \<open>cid\<close> is the source's
  local \<open>channelId\<close>.\<close>

definition sendMessage_try ::
  "world \<Rightarrow> jsstring \<Rightarrow> jsstring \<Rightarrow> jsstring \<Rightarrow> jsstring \<Rightarrow> (error + unit) \<times> event list" where
  "sendMessage_try w ASSISTANT_NAME jid cid text =
     (case fetch w [] cid of
        FetchRejects \<Rightarrow> (Inl FetchError, [Fetch cid])
      | FetchNull \<Rightarrow>
          (Inr (), [Fetch cid,
                    Log LogWarn jid ''Discord channel not found or not a text channel''])
      | FetchChannel OtherChannel \<Rightarrow>
          (Inr (), [Fetch cid,
                    Log LogWarn jid ''Discord channel not found or not a text channel''])
      | FetchChannel (TextChannel i n) \<Rightarrow>
          (let prefixed = prefixed_text ASSISTANT_NAME text in
           case send_each w (TextChannel i n) [Fetch cid] (outbound_messages prefixed) of
             (Inl e, tr) \<Rightarrow> (Inl e, tr)
           | (Inr u, tr) \<Rightarrow> (Inr u, tr @ [Log LogInfo jid ''Discord message sent''])))"

text \<open>
  \<open>sendMessage\<close>: the result is \<open>Inr ()\<close> when the promise resolves and \<open>Inl e\<close> when it
  rejects with \<open>e\<close>; the second component is what was done.
\<close>

definition sendMessage ::
  "world \<Rightarrow> adapter \<Rightarrow> jsstring \<Rightarrow> jsstring \<Rightarrow> jsstring \<Rightarrow> (error + unit) \<times> event list" where
  "sendMessage w a ASSISTANT_NAME jid text =
     (if client a = None \<or> \<not> connected a
      then (Inr (), [Log LogWarn jid ''Discord not connected, cannot send message''])
      else
        let cid = replace_dc jid in
        case sendMessage_try w ASSISTANT_NAME jid cid text of
          (Inl err, tr) \<Rightarrow> (Inr (), tr @ [Log LogError jid ''Failed to send Discord message''])
        | (Inr u, tr) \<Rightarrow> (Inr u, tr))"

definition setTyping_try :: "world \<Rightarrow> jsstring \<Rightarrow> (error + unit) \<times> event list" where
  "setTyping_try w cid =
     (case fetch w [] cid of
        FetchRejects \<Rightarrow> (Inl FetchError, [Fetch cid])
      | FetchNull \<Rightarrow> (Inr (), [Fetch cid])
      | FetchChannel OtherChannel \<Rightarrow> (Inr (), [Fetch cid])
      | FetchChannel (TextChannel i n) \<Rightarrow>
          (if sendTyping w [Fetch cid] (TextChannel i n)
           then (Inr (), [Fetch cid, SendTyping (TextChannel i n)])
           else (Inl TypingError, [Fetch cid, SendTyping (TextChannel i n)])))"

definition setTyping ::
  "world \<Rightarrow> adapter \<Rightarrow> jsstring \<Rightarrow> bool \<Rightarrow> (error + unit) \<times> event list" where
  "setTyping w a jid isTyping =
     (if client a = None \<or> \<not> connected a \<or> \<not> isTyping then (Inr (), [])
      else
        let cid = replace_dc jid in
        case setTyping_try w cid of
          (Inl err, tr) \<Rightarrow>
            (Inr (), tr @ [Log LogDebug jid ''Failed to send Discord typing indicator''])
        | (Inr u, tr) \<Rightarrow> (Inr u, tr))"

definition transport_calls :: "event list \<Rightarrow> event list" where
  "transport_calls tr = filter is_transport tr"


section \<open>Inbound: the MessageCreate handler\<close>

text \<open>
  \<open>message.member?.displayName || message.author.globalName || message.author.username\<close>:
  the first truthy operand, and the last operand when none is.
\<close>

definition senderName :: "message \<Rightarrow> jsstring" where
  "senderName m =
     or_else (map_option displayName (member_opt m))
       (or_else (globalName (author m)) (username (author m)))"

text \<open>
  The handler, given the mapping that \<open>registeredGroups()\<close> returns. Every key looked
  up begins with \<open>dc:\<close>, so no property inherited by a JavaScript object is ever read.
\<close>

definition onMessageCreate :: "(jsstring \<rightharpoonup> 'g) \<Rightarrow> message \<Rightarrow> event list" where
  "onMessageCreate registeredGroups m =
     (if bot_flag (author m) then []
      else if \<not> truthy (guildId m) \<or> channelId m = [] then []
      else
        let chatJid = lit ''dc:'' @ channelId m;
            ts = createdAt m;
            sname = senderName m;
            sndr = user_id (author m);
            cont = content m
        in
        if cont = [] then []
        else
          let channelName =
                (case channel m of TextChannel i n \<Rightarrow> lit ''#'' @ n | OtherChannel \<Rightarrow> chatJid);
              meta = OnChatMetadata chatJid ts channelName (lit ''discord'') False
          in
          case registeredGroups chatJid of
            None \<Rightarrow>
              [meta, Log LogDebug chatJid ''Message from unregistered Discord channel'']
          | Some grp \<Rightarrow>
              [meta,
               OnMessage chatJid
                 \<lparr>inbound_id = message_id m, chat_jid = chatJid, sender = sndr,
                  sender_name = sname, inbound_content = cont, timestamp = ts,
                  is_from_me = False, is_bot_message = False\<rparr>,
               Log LogInfo chatJid ''Discord message stored''])"


section \<open>The task-file producer of the sync script\<close>

text \<open>
  \<open>date +%s%N\<close> (GNU \<open>date\<close>) prints the seconds since the epoch in decimal,
  followed by the nanoseconds of the current second as nine digits, \<open>000000000\<close> to
  \<open>999999999\<close>.
\<close>

record timespec =
  seconds :: nat
  nanoseconds :: nat

definition digit_char :: "nat \<Rightarrow> char" where
  "digit_char d = char_of (48 + d)"

fun decimal :: "nat \<Rightarrow> string" where
  "decimal n = (if n < 10 then [digit_char n] else decimal (n div 10) @ [digit_char (n mod 10)])"

fun fixed_digits :: "nat \<Rightarrow> nat \<Rightarrow> string" where
  "fixed_digits 0 n = []"
| "fixed_digits (Suc k) n = fixed_digits k (n div 10) @ [digit_char (n mod 10)]"

definition date_s_N :: "timespec \<Rightarrow> string" where
  "date_s_N now = decimal (seconds now) @ fixed_digits 9 (nanoseconds now)"

definition task_file :: "string \<Rightarrow> timespec \<Rightarrow> string" where
  "task_file IPC_TASKS_DIR now = IPC_TASKS_DIR @ ''/sync_'' @ date_s_N now @ ''.json''"

text \<open>
  The JSON object that is written. \<open>JSON.stringify\<close> leaves out a property whose value
  is \<open>undefined\<close>, so the \<open>prompt\<close> key is present only when \<open>process.env.TASK_PROMPT\<close>
  is set.
\<close>

record task =
  task_type :: string
  prompt :: "string option"
  schedule_type :: string
  schedule_value :: string
  targetJid :: string

text \<open>
  A file holds a complete task or, after a write that failed part-way, an incomplete
  text; it has permission bits. The file system maps a path to its regular file;
  directories and links are not part of it.
\<close>

datatype file_data = Task task | Truncated

record task_file_entry =
  file_content :: file_data
  file_mode :: nat

type_synonym filesystem = "string \<rightharpoonup> task_file_entry"

definition DISCORD_JID :: string where
  "DISCORD_JID = ''dc:1474853349676286145''"

text \<open>
  The script runs under \<open>set -euo pipefail\<close>: a command that fails ends it. What the
  system answers to one invocation of \<open>write_ipc_task\<close>:
  \<^item> \<open>env_TASK_PROMPT\<close>: the variable \<open>TASK_PROMPT\<close> of the script's own environment.
    The word \<open>TASK_PROMPT="$prompt"\<close> stands after the command \<open>node -e "..."\<close>, so the
    shell passes it to \<open>node\<close> as an argument and does not put it into the environment;
  \<^item> \<open>node_next_run\<close>: the line printed by the first \<open>node\<close> call, \<open>None\<close> when it fails;
  \<^item> whether \<open>mkdir -p\<close> succeeds; the mode a newly created file gets; how
    \<open>fs.writeFileSync\<close> ends; whether \<open>chmod\<close> succeeds; whether the \<open>echo\<close> of
    \<open>log\<close> succeeds;
  \<^item> \<open>altered_program\<close>: what \<open>node\<close> does (exit status zero or not, and the file
    system it leaves) when a spliced value changes the program text, see \<open>js_plain\<close>.
\<close>

datatype write_result = Written | OpenFails | WriteFails

datatype sh_error = NodeFailed | MkdirFailed | ChmodFailed | EchoFailed

record sys =
  env_TASK_PROMPT :: "string option"
  node_next_run :: "string option"
  mkdir_p_ok :: bool
  create_mode :: nat
  writeFileSync_result :: write_result
  chmod_ok :: bool
  echo_ok :: bool
  altered_program :: "string \<Rightarrow> string \<Rightarrow> filesystem \<Rightarrow> bool \<times> filesystem"

text \<open>
  The shell splices \<open>$next_run\<close>, \<open>$DISCORD_JID\<close> and \<open>$task_file\<close> between single
  quotes into the JavaScript text. The literal \<open>'s'\<close> denotes \<open>s\<close> when \<open>s\<close> holds no
  single quote, no backslash and no line terminator (line feed, carriage return).
\<close>

definition js_plain :: "string \<Rightarrow> bool" where
  "js_plain s =
     (CHR 0x27 \<notin> set s \<and> CHR 0x5C \<notin> set s \<and> CHR 0x0A \<notin> set s \<and> CHR 0x0D \<notin> set s)"

text \<open>
  The second \<open>node\<close> call when the program text is the one written in the script:
  \<open>fs.writeFileSync\<close> opens the file (creating it, or emptying an existing one and
  keeping its mode), writes the JSON text and closes it. \<open>True\<close> is exit status zero.
\<close>

definition node_write :: "sys \<Rightarrow> string \<Rightarrow> string \<Rightarrow> filesystem \<Rightarrow> bool \<times> filesystem" where
  "node_write sy nr tf fs =
     (let mode = (case fs tf of None \<Rightarrow> create_mode sy | Some f \<Rightarrow> file_mode f) in
      case writeFileSync_result sy of
        OpenFails \<Rightarrow> (False, fs)
      | WriteFails \<Rightarrow> (False, fs(tf \<mapsto> \<lparr>file_content = Truncated, file_mode = mode\<rparr>))
      | Written \<Rightarrow>
          (True, fs(tf \<mapsto>
             \<lparr>file_content =
                Task \<lparr>task_type = ''schedule_task'', prompt = env_TASK_PROMPT sy,
                      schedule_type = ''once'', schedule_value = nr,
                      targetJid = DISCORD_JID\<rparr>,
              file_mode = mode\<rparr>)))"

text \<open>
  \<open>write_ipc_task\<close>, with the function's argument \<open>$1\<close> as \<open>prompt_arg\<close> and the reading
  of \<open>date +%s%N\<close> as \<open>now\<close>: the result is \<open>Inr ()\<close> when the function returns and
  \<open>Inl e\<close> when the script ends at a failed command; the second component is the file
  system left behind. \<open>chmod 666\<close> fails on a missing file; 438 is octal 666.
  \<open>IPC_TASKS_DIR\<close> is the absolute path the script derives from its own location.
\<close>

definition write_ipc_task ::
  "string \<Rightarrow> string \<Rightarrow> sys \<Rightarrow> timespec \<Rightarrow> filesystem \<Rightarrow> (sh_error + unit) \<times> filesystem" where
  "write_ipc_task IPC_TASKS_DIR prompt_arg sy now fs =
     (case node_next_run sy of
        None \<Rightarrow> (Inl NodeFailed, fs)
      | Some nr \<Rightarrow>
          let tf = task_file IPC_TASKS_DIR now in
          if \<not> mkdir_p_ok sy then (Inl MkdirFailed, fs)
          else
            let (ok, fs1) =
                  (if js_plain nr \<and> js_plain DISCORD_JID \<and> js_plain tf
                   then node_write sy nr tf fs
                   else altered_program sy nr tf fs)
            in
            if \<not> ok then (Inl NodeFailed, fs1)
            else
              (case fs1 tf of
                 None \<Rightarrow> (Inl ChmodFailed, fs1)
               | Some f \<Rightarrow>
                   if \<not> chmod_ok sy then (Inl ChmodFailed, fs1)
                   else if \<not> echo_ok sy
                   then (Inl EchoFailed, fs1(tf \<mapsto> f\<lparr>file_mode := 438\<rparr>))
                   else (Inr (), fs1(tf \<mapsto> f\<lparr>file_mode := 438\<rparr>))))"

section \<open>Observations and example platforms\<close>

text \<open>The contents handed to \<open>channel.send\<close> in a run, in order.\<close>

fun sent_text :: "event \<Rightarrow> jsstring list" where
  "sent_text (Send ch c) = [c]"
| "sent_text _ = []"

definition chunks_sent :: "event list \<Rightarrow> jsstring list" where
  "chunks_sent tr = concat (map sent_text tr)"

text \<open>
  Two platforms for concrete runs: one on which every fetch resolves to the given
  channel and every call succeeds, and one on which every call rejects. And an adapter
  after \<open>connect()\<close>, with its \<open>connected\<close> flag as given.
\<close>

definition always_ok :: "channel \<Rightarrow> world" where
  "always_ok ch =
     \<lparr>fetch = (\<lambda>tr cid. FetchChannel ch), send = (\<lambda>tr c m. True),
      sendTyping = (\<lambda>tr c. True)\<rparr>"

definition rejecting :: world where
  "rejecting = \<lparr>fetch = (\<lambda>tr cid. FetchRejects), send = (\<lambda>tr c m. False),
      sendTyping = (\<lambda>tr c. False)\<rparr>"

definition discord_adapter :: "bool \<Rightarrow> adapter" where
  "discord_adapter ready = \<lparr>client = Some Client, connected = ready\<rparr>"

text \<open>
  The spec's ordered preference list for the sender's display name: the member's display
  name (absent when the event has no member), the global display name (absent when
  \<open>null\<close>), the account username.
\<close>

definition sender_preferences :: "message \<Rightarrow> jsstring option list" where
  "sender_preferences m =
     [map_option displayName (member_opt m), globalName (author m), Some (username (author m))]"

text \<open>
  An example event: user \<open>alice123\<close>, global name \<open>Al\<close>, empty member display name,
  writing \<open>hello\<close> in the guild text channel \<open>42\<close>; and two registration mappings, one
  with that channel and one without.
\<close>

definition alice :: "bool \<Rightarrow> user" where
  "alice is_bot =
     \<lparr>bot_flag = is_bot, globalName = Some (lit ''Al''), username = lit ''alice123'',
      user_id = lit ''1001''\<rparr>"

definition hello_message :: "bool \<Rightarrow> message" where
  "hello_message is_bot =
     \<lparr>message_id = lit ''9001'', author = alice is_bot,
      member_opt = Some \<lparr>displayName = lit ''''\<rparr>, guildId = Some (lit ''7''),
      channelId = lit ''42'', createdAt = lit ''2024-01-01T00:00:00.000Z'',
      content = lit ''hello'', channel = TextChannel (lit ''42'') (lit ''general'')\<rparr>"

definition one_group :: "jsstring \<rightharpoonup> unit" where
  "one_group = [lit ''dc:42'' \<mapsto> ()]"

definition no_group :: "jsstring \<rightharpoonup> unit" where
  "no_group = Map.empty"



definition at_time :: "nat \<Rightarrow> nat \<Rightarrow> timespec" where
  "at_time s n = \<lparr>seconds = s, nanoseconds = n\<rparr>"

text \<open>
  A system on which every command of one invocation succeeds, with \<open>TASK_PROMPT\<close> unset
  and the given line from the first \<open>node\<close> call; handed an altered program text,
  its \<open>node\<close> fails and changes nothing.
\<close>

definition working_sys :: "string \<Rightarrow> sys" where
  "working_sys nr =
     \<lparr>env_TASK_PROMPT = None, node_next_run = Some nr, mkdir_p_ok = True, create_mode = 420,
      writeFileSync_result = Written, chmod_ok = True, echo_ok = True,
      altered_program = (\<lambda>n t fs. (False, fs))\<rparr>"

section \<open>The splitting loop\<close>

declare chunk_loop.simps [simp del]

declare decimal.simps [simp del]

lemma chunk_loop_Nil: "chunk_loop [] chunks = chunks"
  by (simp add: chunk_loop.simps)

lemma chunk_loop_step:
  "remaining \<noteq> [] \<Longrightarrow>
   chunk_loop remaining chunks = chunk_loop (drop 2000 remaining) (chunks @ [take 2000 remaining])"
  by (subst chunk_loop.simps) (simp add: MAX_MESSAGE_LENGTH_def)

lemma slice_count_step:
  assumes "0 < (n::nat)"
  shows "(n + 1999) div 2000 = Suc ((n - 2000 + 1999) div 2000)"
proof (cases "n < 2000")
  case True
  have "(n + 1999) div 2000 = 1"
    by (rule div_nat_eqI) (use assms True in simp_all)
  moreover have "(n - 2000 + 1999) div 2000 = 0"
    using True by simp
  ultimately show ?thesis by simp
next
  case False
  then have "n + 1999 = (n - 2000 + 1999) + 2000" by simp
  then have "(n + 1999) div 2000 = ((n - 2000 + 1999) + 2000) div 2000" by simp
  also have "\<dots> = Suc ((n - 2000 + 1999) div 2000)"
    by simp
  finally show ?thesis .
qed

lemma small_count: "0 < (n::nat) \<Longrightarrow> n \<le> 2000 \<Longrightarrow> (n + 1999) div 2000 = 1"
  by (rule div_nat_eqI) simp_all

lemma slices_unfold:
  fixes f :: "nat \<Rightarrow> 'a"
  shows "map f [0..<Suc n] = f 0 # map (\<lambda>k. f (Suc k)) [0..<n]"
proof -
  have "[0..<Suc n] = 0 # map Suc [0..<n]"
    by (simp add: upt_conv_Cons map_Suc_upt del: upt_Suc)
  then show ?thesis by (simp add: comp_def del: upt_Suc)
qed

lemma chunk_loop_slices:
  "chunk_loop r cs =
     cs @ map (\<lambda>k. take 2000 (drop (k * 2000) r)) [0..<(length r + 1999) div 2000]"
proof (induction "length r" arbitrary: r cs rule: less_induct)
  case less
  show ?case
  proof (cases "r = []")
    case True
    then show ?thesis by (simp add: chunk_loop_Nil)
  next
    case False
    then have pos: "0 < length r" by simp
    have shorter: "length (drop 2000 r) < length r" using pos by simp
    have "chunk_loop r cs = chunk_loop (drop 2000 r) (cs @ [take 2000 r])"
      using False by (rule chunk_loop_step)
    also have "\<dots> = (cs @ [take 2000 r]) @
        map (\<lambda>k. take 2000 (drop (k * 2000) (drop 2000 r)))
          [0..<(length (drop 2000 r) + 1999) div 2000]"
      by (rule less.hyps [OF shorter])
    also have "\<dots> = cs @ map (\<lambda>k. take 2000 (drop (k * 2000) r))
          [0..<Suc ((length r - 2000 + 1999) div 2000)]"
      unfolding slices_unfold by (simp add: add.commute)
    finally show ?thesis by (simp only: slice_count_step [OF pos])
  qed
qed

lemma outbound_messages_slices:
  "p \<noteq> [] \<Longrightarrow> outbound_messages p =
     map (\<lambda>k. take 2000 (drop (k * 2000) p)) [0..<(length p + 1999) div 2000]"
proof (cases "length p \<le> 2000")
  case True
  assume "p \<noteq> []"
  then have "0 < length p" by simp
  with True have "(length p + 1999) div 2000 = 1" by (simp add: small_count)
  with True show ?thesis by (simp add: outbound_messages_def MAX_MESSAGE_LENGTH_def)
next
  case False
  then show ?thesis
    by (simp add: outbound_messages_def MAX_MESSAGE_LENGTH_def chunk_loop_slices)
qed

lemma concat_slices:
  "concat (map (\<lambda>k. take m (drop (k * m) p)) [0..<n]) = take (n * m) p"
proof (induction n)
  case 0
  then show ?case by simp
next
  case (Suc n)
  have "Suc n * m = n * m + m" by simp
  then have "take (Suc n * m) p = take (n * m) p @ take m (drop (n * m) p)"
    by (simp only: take_add)
  with Suc show ?case by simp
qed

lemma ceiling_div_2000: "\<lceil>real n / 2000\<rceil> = int ((n + 1999) div 2000)"
proof -
  define q where "q = (n + 1999) div 2000"
  define r where "r = (n + 1999) mod 2000"
  have eq: "n + 1999 = 2000 * q + r"
    unfolding q_def r_def by (rule mult_div_mod_eq [symmetric])
  have r: "r < 2000"
    unfolding r_def by simp
  have up: "n \<le> 2000 * q" using eq r by linarith
  have lo: "2000 * q < n + 2000" using eq by linarith
  have "real n \<le> real (2000 * q)" using up by (simp only: of_nat_le_iff)
  then have a: "real n \<le> 2000 * real q" by simp
  have "real (2000 * q) < real (n + 2000)" using lo by (simp only: of_nat_less_iff)
  then have b: "2000 * real q < real n + 2000" by simp
  have c: "real n / 2000 \<le> real q" using a by simp
  have d: "real q - 1 < real n / 2000" using b by simp
  show ?thesis unfolding q_def [symmetric] using c d by (simp add: ceiling_eq_iff)
qed

lemma slices_bounded:
  "\<forall>c \<in> set (map (\<lambda>k. take 2000 (drop (k * 2000) p)) [0..<n]). length c \<le> 2000"
  by simp

lemma concat_all_slices:
  "concat (map (\<lambda>k. take 2000 (drop (k * 2000) p)) [0..<(length p + 1999) div 2000]) = p"
proof -
  have "length p \<le> (length p + 1999) div 2000 * 2000"
  proof -
    have "length p + 1999 = (length p + 1999) div 2000 * 2000 + (length p + 1999) mod 2000"
      by (rule div_mult_mod_eq [symmetric])
    moreover have "(length p + 1999) mod 2000 < 2000" by simp
    ultimately show ?thesis by linarith
  qed
  then show ?thesis by (simp add: concat_slices)
qed

lemma upt_3: "[0..<3] = [0, 1, 2]"
  by (simp add: numeral_3_eq_3)

lemma outbound_messages_4512:
  assumes "length p = 4512"
  shows "outbound_messages p = [take 2000 p, take 2000 (drop 2000 p), drop 4000 p]"
proof -
  have ne: "p \<noteq> []" using assms by auto
  have n: "(length p + 1999) div 2000 = 3" using assms by simp
  show ?thesis
    unfolding outbound_messages_slices [OF ne] n upt_3 using assms by simp
qed

section \<open>Properties of the outbound path\<close>

lemma length_lit: "length (lit s) = length s"
  by (simp add: lit_def)

lemma startsWith_iff: "startsWith s search \<longleftrightarrow> (\<exists>rest. s = search @ rest)"
proof
  assume "startsWith s search"
  then have "s = search @ drop (length search) s"
    unfolding startsWith_def by (metis append_take_drop_id)
  then show "\<exists>rest. s = search @ rest" ..
next
  assume "\<exists>rest. s = search @ rest"
  then show "startsWith s search"
    by (auto simp: startsWith_def)
qed

lemma replace_dc_prefixed: "replace_dc (lit ''dc:'' @ rest) = rest"
  by (simp add: replace_dc_def startsWith_def length_lit)

lemma replace_dc_other: "\<not> ownsJid jid \<Longrightarrow> replace_dc jid = jid"
  by (simp add: replace_dc_def ownsJid_def)

lemma lit_dc_42: "replace_dc (lit ''dc:42'') = lit ''42''"
  by (simp add: replace_dc_def startsWith_def lit_def)

lemma send_each_ok:
  "\<forall>tr c. send w tr ch c \<Longrightarrow> send_each w ch tr cs = (Inr (), tr @ map (Send ch) cs)"
  by (induction cs arbitrary: tr) simp_all

lemma send_each_extends: "\<exists>ext. snd (send_each w ch tr cs) = tr @ ext"
proof (induction cs arbitrary: tr)
  case Nil
  then show ?case by simp
next
  case (Cons c cs)
  show ?case
  proof (cases "send w tr ch c")
    case True
    from Cons [of "tr @ [Send ch c]"] obtain ext
      where "snd (send_each w ch (tr @ [Send ch c]) cs) = (tr @ [Send ch c]) @ ext" ..
    with True show ?thesis by simp
  next
    case False
    then show ?thesis by simp
  qed
qed

lemma send_each_initial_segment:
  "\<exists>k \<le> length cs. snd (send_each w ch tr cs) = tr @ map (Send ch) (take k cs)"
proof (induction cs arbitrary: tr)
  case Nil
  then show ?case by simp
next
  case (Cons c cs)
  show ?case
  proof (cases "send w tr ch c")
    case True
    from Cons [of "tr @ [Send ch c]"] obtain k where k: "k \<le> length cs"
      and "snd (send_each w ch (tr @ [Send ch c]) cs)
         = (tr @ [Send ch c]) @ map (Send ch) (take k cs)"
      by blast
    with True have "snd (send_each w ch tr (c # cs)) = tr @ map (Send ch) (take (Suc k) (c # cs))"
      by simp
    moreover have "Suc k \<le> length (c # cs)" using k by simp
    ultimately show ?thesis by blast
  next
    case False
    then have "snd (send_each w ch tr (c # cs)) = tr @ map (Send ch) (take 1 (c # cs))"
      by simp
    moreover have "1 \<le> length (c # cs)" by simp
    ultimately show ?thesis by blast
  qed
qed

lemma sendMessage_try_ok:
  assumes "fetch w [] cid = FetchChannel (TextChannel i n)"
    and "\<forall>tr c. send w tr (TextChannel i n) c"
  shows "sendMessage_try w name jid cid text =
     (Inr (), Fetch cid # map (Send (TextChannel i n)) (outbound_messages (prefixed_text name text))
        @ [Log LogInfo jid ''Discord message sent''])"
  using assms by (simp add: sendMessage_try_def send_each_ok)

lemma sendMessage_ok:
  assumes "client a \<noteq> None" and "connected a"
    and "fetch w [] (replace_dc jid) = FetchChannel (TextChannel i n)"
    and "\<forall>tr c. send w tr (TextChannel i n) c"
  shows "sendMessage w a name jid text =
     (Inr (), Fetch (replace_dc jid)
        # map (Send (TextChannel i n)) (outbound_messages (prefixed_text name text))
        @ [Log LogInfo jid ''Discord message sent''])"
  using assms(1,2) by (simp add: sendMessage_def sendMessage_try_ok [OF assms(3,4)])

lemma transport_calls_sends:
  "transport_calls (Fetch cid # map (Send ch) ms @ [Log l j s]) = Fetch cid # map (Send ch) ms"
  by (induction ms) (simp_all add: transport_calls_def)

lemma transport_calls_append_log:
  "transport_calls (tr @ [Log l j s]) = transport_calls tr"
  by (simp add: transport_calls_def)

lemma transport_calls_fetch_sends:
  "transport_calls (Fetch cid # map (Send ch) ms) = Fetch cid # map (Send ch) ms"
  by (induction ms) (simp_all add: transport_calls_def)

lemma chunks_sent_sends:
  "chunks_sent (Fetch cid # map (Send ch) ms @ [Log l j s]) = ms"
  by (induction ms) (simp_all add: chunks_sent_def)

lemma prefixed_text_nonempty: "prefixed_text name text \<noteq> []"
  by (simp add: prefixed_text_def assistant_prefix_def lit_def)

lemma sendMessage_4500:
  assumes "client a \<noteq> None" and "connected a"
    and "fetch w [] (replace_dc jid) = FetchChannel (TextChannel i n)"
    and "\<forall>tr c. send w tr (TextChannel i n) c"
    and "length text = 4500" and "length (assistant_prefix name) = 12"
  shows "chunks_sent (snd (sendMessage w a name jid text)) =
     [assistant_prefix name @ take 1988 text, take 2000 (drop 1988 text), drop 3988 text]"
proof -
  have len: "length (prefixed_text name text) = 4512"
    using assms(5,6) by (simp add: prefixed_text_def)
  show ?thesis
    unfolding sendMessage_ok [OF assms(1-4)] snd_conv chunks_sent_sends
      outbound_messages_4512 [OF len]
    using assms(5,6) by (simp add: prefixed_text_def)
qed

lemma always_ok_fetch: "fetch (always_ok ch) tr cid = FetchChannel ch"
  by (simp add: always_ok_def)

lemma always_ok_send: "\<forall>tr c. send (always_ok ch) tr ch c"
  by (simp add: always_ok_def)

lemma discord_adapter_ready:
  "client (discord_adapter True) \<noteq> None" "connected (discord_adapter True)"
  by (simp_all add: discord_adapter_def)

lemma length_prefix_Jarvis: "length (assistant_prefix (lit ''Jarvis'')) = 12"
  by (simp add: assistant_prefix_def length_lit)

lemma sendMessage_try_fetch_rejects:
  "fetch w [] cid = FetchRejects \<Longrightarrow>
   sendMessage_try w name jid cid text = (Inl FetchError, [Fetch cid])"
  by (simp add: sendMessage_try_def)

lemma sendMessage_disconnected:
  "client a = None \<or> \<not> connected a \<Longrightarrow>
   sendMessage w a name jid text =
     (Inr (), [Log LogWarn jid ''Discord not connected, cannot send message''])"
  by (auto simp: sendMessage_def)

lemma sendMessage_swallows_fetch_error:
  "sendMessage rejecting (discord_adapter True) name jid text =
     (Inr (), [Fetch (replace_dc jid), Log LogError jid ''Failed to send Discord message''])"
  by (simp add: sendMessage_def discord_adapter_def sendMessage_try_fetch_rejects rejecting_def)

lemma sendMessage_swallows_send_error:
  assumes "client a \<noteq> None" and "connected a"
    and "fetch w [] (replace_dc jid) = FetchChannel (TextChannel i n)"
    and "length (prefixed_text name text) \<le> 2000"
    and "\<not> send w [Fetch (replace_dc jid)] (TextChannel i n) (prefixed_text name text)"
  shows "sendMessage w a name jid text =
     (Inr (), [Fetch (replace_dc jid), Send (TextChannel i n) (prefixed_text name text),
               Log LogError jid ''Failed to send Discord message''])"
  using assms
  by (simp add: sendMessage_def sendMessage_try_def outbound_messages_def
      MAX_MESSAGE_LENGTH_def)

lemma sendMessage_try_fetches_first:
  "\<exists>rest. snd (sendMessage_try w name jid cid text) = Fetch cid # rest"
proof (cases "fetch w [] cid")
  case FetchRejects
  then show ?thesis by (simp add: sendMessage_try_def)
next
  case FetchNull
  then show ?thesis by (simp add: sendMessage_try_def)
next
  case (FetchChannel ch)
  show ?thesis
  proof (cases ch)
    case OtherChannel
    with FetchChannel show ?thesis by (simp add: sendMessage_try_def)
  next
    case (TextChannel i n)
    obtain ext where "snd (send_each w (TextChannel i n) [Fetch cid]
        (outbound_messages (prefixed_text name text))) = [Fetch cid] @ ext"
      using send_each_extends by blast
    with FetchChannel TextChannel show ?thesis
      by (auto simp: sendMessage_try_def split: prod.split sum.split)
  qed
qed

lemma sendMessage_fetches_first:
  assumes "client a \<noteq> None" and "connected a"
  shows "\<exists>rest. snd (sendMessage w a name jid text) = Fetch (replace_dc jid) # rest"
proof -
  obtain rest where "snd (sendMessage_try w name jid (replace_dc jid) text)
      = Fetch (replace_dc jid) # rest"
    using sendMessage_try_fetches_first by blast
  with assms show ?thesis
    by (auto simp: sendMessage_def split: prod.split sum.split)
qed

lemma setTyping_fetches_first:
  assumes "client a \<noteq> None" and "connected a"
  shows "\<exists>rest. snd (setTyping w a jid True) = Fetch (replace_dc jid) # rest"
  using assms
  by (auto simp: setTyping_def setTyping_try_def Let_def
      split: prod.split sum.split fetch_result.split channel.split)

lemma sendMessage_try_initial_segment:
  assumes "fetch w [] cid = FetchChannel (TextChannel i n)"
  shows "\<exists>k \<le> length (outbound_messages (prefixed_text name text)).
     transport_calls (snd (sendMessage_try w name jid cid text)) =
       Fetch cid # map (Send (TextChannel i n))
         (take k (outbound_messages (prefixed_text name text)))"
proof -
  from send_each_initial_segment
  obtain k where k: "k \<le> length (outbound_messages (prefixed_text name text))"
    and tr: "snd (send_each w (TextChannel i n) [Fetch cid]
        (outbound_messages (prefixed_text name text)))
      = [Fetch cid] @ map (Send (TextChannel i n))
          (take k (outbound_messages (prefixed_text name text)))"
    by blast
  have "transport_calls (snd (sendMessage_try w name jid cid text)) =
       Fetch cid # map (Send (TextChannel i n))
         (take k (outbound_messages (prefixed_text name text)))"
  proof (cases "send_each w (TextChannel i n) [Fetch cid]
        (outbound_messages (prefixed_text name text))")
    case (Pair r t)
    with tr have t: "t = Fetch cid # map (Send (TextChannel i n))
          (take k (outbound_messages (prefixed_text name text)))"
      by simp
    show ?thesis
      using assms Pair
      by (cases r)
        (simp_all add: sendMessage_try_def t transport_calls_append_log
          transport_calls_fetch_sends transport_calls_sends)
  qed
  with k show ?thesis by blast
qed

lemma sendMessage_initial_segment:
  assumes "client a \<noteq> None" and "connected a"
    and "fetch w [] (replace_dc jid) = FetchChannel (TextChannel i n)"
  shows "\<exists>k \<le> length (outbound_messages (prefixed_text name text)).
     transport_calls (snd (sendMessage w a name jid text)) =
       Fetch (replace_dc jid) # map (Send (TextChannel i n))
         (take k (outbound_messages (prefixed_text name text)))"
proof -
  have "transport_calls (snd (sendMessage w a name jid text))
      = transport_calls (snd (sendMessage_try w name jid (replace_dc jid) text))"
    using assms(1,2)
    by (cases "sendMessage_try w name jid (replace_dc jid) text")
      (auto simp: sendMessage_def transport_calls_append_log split: sum.split)
  with sendMessage_try_initial_segment [OF assms(3)] show ?thesis by simp
qed

text \<open>
  Claim C1. On a connected adapter whose destination resolves to a text channel,
  \<open>sendMessage\<close> forms the prefixed text \<open>p\<close> once and splits it into the messages
  \<open>msgs\<close>: the single message \<open>p\<close> when \<open>p\<close> has at most 2000 code units, and in every
  case \<open>ceil(length p / 2000)\<close> messages, the \<open>k\<close>-th being the \<open>k\<close>-th slice of 2000
  code units of \<open>p\<close>, each of at most 2000 code units, whose concatenation is \<open>p\<close>.
  After the fetch, the sends are an initial segment of \<open>msgs\<close>, in order, and all of
  \<open>msgs\<close> on a platform that accepts every send.
\<close>

theorem sendMessage_splits:
  assumes "client a \<noteq> None" and "connected a"
    and "fetch w [] (replace_dc jid) = FetchChannel (TextChannel i n)"
  shows "\<exists>p msgs.
      p = lit ''**'' @ name @ lit '':** '' @ text
    \<and> (length p \<le> 2000 \<longrightarrow> msgs = [p])
    \<and> int (length msgs) = \<lceil>real (length p) / 2000\<rceil>
    \<and> (\<forall>k < length msgs. msgs ! k = take 2000 (drop (k * 2000) p))
    \<and> (\<forall>c \<in> set msgs. length c \<le> 2000)
    \<and> concat msgs = p
    \<and> (\<exists>k \<le> length msgs. transport_calls (snd (sendMessage w a name jid text))
          = Fetch (replace_dc jid) # map (Send (TextChannel i n)) (take k msgs))
    \<and> ((\<forall>tr c. send w tr (TextChannel i n) c) \<longrightarrow>
          transport_calls (snd (sendMessage w a name jid text))
          = Fetch (replace_dc jid) # map (Send (TextChannel i n)) msgs)"
proof -
  define p where "p = prefixed_text name text"
  define msgs where "msgs = outbound_messages p"
  have ne: "p \<noteq> []" unfolding p_def by (rule prefixed_text_nonempty)
  have sl: "msgs = map (\<lambda>k. take 2000 (drop (k * 2000) p)) [0..<(length p + 1999) div 2000]"
    unfolding msgs_def by (rule outbound_messages_slices [OF ne])
  have 1: "p = lit ''**'' @ name @ lit '':** '' @ text"
    by (simp add: p_def prefixed_text_def assistant_prefix_def)
  have 2: "(\<forall>tr c. send w tr (TextChannel i n) c) \<longrightarrow>
        transport_calls (snd (sendMessage w a name jid text))
        = Fetch (replace_dc jid) # map (Send (TextChannel i n)) msgs"
    by (simp add: sendMessage_ok [OF assms] transport_calls_sends msgs_def p_def)
  have 3: "length p \<le> 2000 \<longrightarrow> msgs = [p]"
    by (simp add: msgs_def outbound_messages_def MAX_MESSAGE_LENGTH_def)
  have 4: "int (length msgs) = \<lceil>real (length p) / 2000\<rceil>"
    by (simp add: sl ceiling_div_2000)
  have 5: "\<forall>k < length msgs. msgs ! k = take 2000 (drop (k * 2000) p)"
    by (simp add: sl)
  have 6: "\<forall>c \<in> set msgs. length c \<le> 2000"
    unfolding sl by (rule slices_bounded)
  have 7: "concat msgs = p"
    unfolding sl by (rule concat_all_slices)
  have 8: "\<exists>k \<le> length msgs. transport_calls (snd (sendMessage w a name jid text))
          = Fetch (replace_dc jid) # map (Send (TextChannel i n)) (take k msgs)"
    unfolding msgs_def p_def by (rule sendMessage_initial_segment [OF assms])
  from 1 2 3 4 5 6 7 8 show ?thesis by blast
qed

theorem sendMessage_splits_witness:
  "transport_calls (snd (sendMessage
      (always_ok (TextChannel (lit ''42'') (lit ''general''))) (discord_adapter True)
      (lit ''Andy'') (lit ''dc:42'') (lit ''hi'')))
   = [Fetch (lit ''42''),
      Send (TextChannel (lit ''42'') (lit ''general'')) (lit ''**Andy:** hi'')]"
proof -
  define ch where "ch = TextChannel (lit ''42'') (lit ''general'')"
  define tc where "tc = transport_calls (snd (sendMessage (always_ok ch) (discord_adapter True)
      (lit ''Andy'') (lit ''dc:42'') (lit ''hi'')))"
  have "\<exists>p msgs.
      p = lit ''**'' @ lit ''Andy'' @ lit '':** '' @ lit ''hi''
    \<and> (length p \<le> 2000 \<longrightarrow> msgs = [p])
    \<and> int (length msgs) = \<lceil>real (length p) / 2000\<rceil>
    \<and> (\<forall>k < length msgs. msgs ! k = take 2000 (drop (k * 2000) p))
    \<and> (\<forall>c \<in> set msgs. length c \<le> 2000)
    \<and> concat msgs = p
    \<and> (\<exists>k \<le> length msgs. tc = Fetch (replace_dc (lit ''dc:42'')) # map (Send ch) (take k msgs))
    \<and> ((\<forall>tr c. send (always_ok ch) tr ch c) \<longrightarrow>
          tc = Fetch (replace_dc (lit ''dc:42'')) # map (Send ch) msgs)"
    unfolding tc_def ch_def
    by (rule sendMessage_splits [OF discord_adapter_ready always_ok_fetch])
  then obtain p msgs where p: "p = lit ''**'' @ lit ''Andy'' @ lit '':** '' @ lit ''hi''"
    and one: "length p \<le> 2000 \<longrightarrow> msgs = [p]"
    and tr: "(\<forall>tr c. send (always_ok ch) tr ch c) \<longrightarrow>
          tc = Fetch (replace_dc (lit ''dc:42'')) # map (Send ch) msgs"
    by blast
  have "length p \<le> 2000" by (simp add: p length_lit)
  with one have "msgs = [p]" by simp
  moreover have "p = lit ''**Andy:** hi''" by (simp add: p lit_def)
  moreover from tr always_ok_send
  have "tc = Fetch (replace_dc (lit ''dc:42'')) # map (Send ch) msgs" by blast
  ultimately have "tc = [Fetch (lit ''42''), Send ch (lit ''**Andy:** hi'')]"
    by (simp add: lit_dc_42)
  then show ?thesis unfolding tc_def ch_def .
qed

text \<open>
  Claim C7, amended. A text of 4500 code units behind a prefix of 12 code units is a
  prefixed text of 4512 code units: \<open>sendMessage\<close> sends three chunks of 2000, 2000 and
  512 code units, and the first chunk is the prefix followed by the first 1988 code units
  of the text.
\<close>

theorem sendMessage_4500_chunks:
  assumes "client a \<noteq> None" and "connected a"
    and "fetch w [] (replace_dc jid) = FetchChannel (TextChannel i n)"
    and "\<forall>tr c. send w tr (TextChannel i n) c"
    and "length text = 4500" and "length (assistant_prefix name) = 12"
  shows "map length (chunks_sent (snd (sendMessage w a name jid text))) = [2000, 2000, 512]
    \<and> (\<exists>rest. chunks_sent (snd (sendMessage w a name jid text))
          = (assistant_prefix name @ take 1988 text) # rest)"
  unfolding sendMessage_4500 [OF assms] using assms(5,6) by simp

theorem sendMessage_4500_chunks_witness:
  "map length (chunks_sent (snd (sendMessage
      (always_ok (TextChannel (lit ''42'') (lit ''general''))) (discord_adapter True)
      (lit ''Jarvis'') (lit ''dc:42'') (replicate 4500 120))))
   = [2000, 2000, 512]"
proof -
  have t: "length (replicate 4500 (120 :: code_unit)) = 4500" by simp
  from sendMessage_4500_chunks [OF discord_adapter_ready always_ok_fetch always_ok_send t
      length_prefix_Jarvis]
  show ?thesis by (rule conjunct1)
qed

text \<open>The lengths 2000, 2000, 500 of claim C7 are not what is sent for such a text.\<close>

theorem sendMessage_4500_not_500:
  "map length (chunks_sent (snd (sendMessage
      (always_ok (TextChannel (lit ''42'') (lit ''general''))) (discord_adapter True)
      (lit ''Jarvis'') (lit ''dc:42'') (replicate 4500 120))))
   \<noteq> [2000, 2000, 500]"
proof -
  have t: "length (replicate 4500 (120 :: code_unit)) = 4500" by simp
  show ?thesis
    unfolding sendMessage_4500 [OF discord_adapter_ready always_ok_fetch always_ok_send t
      length_prefix_Jarvis]
    by (simp add: length_prefix_Jarvis)
qed

text \<open>
  Claim C4. \<open>sendMessage\<close> always resolves, whatever the platform answers; and when the
  adapter has no client or is not connected, it makes no transport call.
\<close>

theorem sendMessage_never_rejects:
  "fst (sendMessage w a name jid text) = Inr ()
   \<and> (client a = None \<or> \<not> connected a \<longrightarrow>
        transport_calls (snd (sendMessage w a name jid text)) = [])"
proof
  show "fst (sendMessage w a name jid text) = Inr ()"
    by (simp add: sendMessage_def Let_def split: prod.split sum.split)
  show "client a = None \<or> \<not> connected a \<longrightarrow>
        transport_calls (snd (sendMessage w a name jid text)) = []"
    by (auto simp: sendMessage_disconnected transport_calls_def)
qed

theorem sendMessage_never_rejects_witness:
  "fst (sendMessage rejecting (discord_adapter False) (lit ''Andy'') (lit ''dc:42'') (lit ''hi''))
     = Inr ()
   \<and> transport_calls (snd (sendMessage rejecting (discord_adapter False) (lit ''Andy'')
        (lit ''dc:42'') (lit ''hi''))) = []"
  using sendMessage_never_rejects [of rejecting "discord_adapter False" "lit ''Andy''"
      "lit ''dc:42''" "lit ''hi''"]
  by (simp add: discord_adapter_def)

text \<open>
  Claim C5. \<open>ownsJid\<close> holds exactly for the identifiers that begin with \<open>dc:\<close>; in
  particular it is false for the empty string.
\<close>

theorem ownsJid_iff_prefix:
  "(ownsJid jid \<longleftrightarrow> (\<exists>rest. jid = lit ''dc:'' @ rest)) \<and> \<not> ownsJid []"
  by (simp add: ownsJid_def startsWith_iff) (simp add: lit_def)

lemma ownsJid_examples:
  "ownsJid (lit ''dc:1474853349676286145'')"
  "ownsJid (lit ''dc:'')"
  "\<not> ownsJid (lit ''DC:123'')"
  "\<not> ownsJid (lit ''tg:123'')"
  "\<not> ownsJid (lit ''dc'')"
  "\<not> ownsJid (lit '' dc:123'')"
  "\<not> ownsJid (lit ''xdc:123'')"
  by (simp_all add: ownsJid_def startsWith_def lit_def)

text \<open>
  Claim C10. On a connected adapter, \<open>sendMessage\<close> and \<open>setTyping\<close> (asked to show
  typing) begin by fetching \<open>replace_dc jid\<close>, whether or not \<open>ownsJid jid\<close> holds.
  \<open>replace_dc\<close> removes one leading \<open>dc:\<close> and nothing more, and leaves an identifier
  without that prefix unchanged.
\<close>

theorem destination_not_checked:
  assumes "client a \<noteq> None" and "connected a"
  shows "(\<exists>rest. snd (sendMessage w a name jid text) = Fetch (replace_dc jid) # rest)
    \<and> (\<exists>rest. snd (setTyping w a jid True) = Fetch (replace_dc jid) # rest)
    \<and> (\<forall>r. jid = lit ''dc:'' @ r \<longrightarrow> replace_dc jid = r)
    \<and> (\<not> ownsJid jid \<longrightarrow> replace_dc jid = jid)"
  using sendMessage_fetches_first [OF assms] setTyping_fetches_first [OF assms]
  by (auto simp: replace_dc_prefixed replace_dc_other)

theorem destination_not_checked_witness:
  "\<not> ownsJid (lit ''tg:777'') \<and>
   snd (sendMessage rejecting (discord_adapter True) (lit ''Andy'') (lit ''tg:777'') (lit ''hi''))
     = [Fetch (lit ''tg:777''), Log LogError (lit ''tg:777'') ''Failed to send Discord message'']
   \<and> snd (setTyping rejecting (discord_adapter True) (lit ''tg:777'') True)
     = [Fetch (lit ''tg:777''),
        Log LogDebug (lit ''tg:777'') ''Failed to send Discord typing indicator'']"
proof -
  have no: "\<not> ownsJid (lit ''tg:777'')"
    by (simp add: ownsJid_def startsWith_def lit_def)
  from destination_not_checked [OF discord_adapter_ready, where jid = "lit ''tg:777''"] no
  have same: "replace_dc (lit ''tg:777'') = lit ''tg:777''" by blast
  have rej: "fetch rejecting [] (lit ''tg:777'') = FetchRejects"
    by (simp add: rejecting_def)
  show ?thesis
    using no rej
    by (simp add: sendMessage_def setTyping_def sendMessage_try_def setTyping_try_def
        discord_adapter_def same Let_def)
qed

section \<open>Properties of the inbound handler\<close>

lemma onMessageCreate_unregistered:
  assumes "\<not> bot_flag (author m)" and "truthy (guildId m)" and "channelId m \<noteq> []"
    and "content m \<noteq> []" and "groups (lit ''dc:'' @ channelId m) = None"
  shows "\<exists>name. onMessageCreate groups m =
     [OnChatMetadata (lit ''dc:'' @ channelId m) (createdAt m) name (lit ''discord'') False,
      Log LogDebug (lit ''dc:'' @ channelId m) ''Message from unregistered Discord channel'']"
  using assms by (simp add: onMessageCreate_def Let_def)

lemma onMessageCreate_registered:
  assumes "\<not> bot_flag (author m)" and "truthy (guildId m)" and "channelId m \<noteq> []"
    and "content m \<noteq> []" and "groups (lit ''dc:'' @ channelId m) = Some g"
  shows "\<exists>name. onMessageCreate groups m =
     [OnChatMetadata (lit ''dc:'' @ channelId m) (createdAt m) name (lit ''discord'') False,
      OnMessage (lit ''dc:'' @ channelId m)
        \<lparr>inbound_id = message_id m, chat_jid = lit ''dc:'' @ channelId m,
         sender = user_id (author m), sender_name = senderName m,
         inbound_content = content m, timestamp = createdAt m,
         is_from_me = False, is_bot_message = False\<rparr>,
      Log LogInfo (lit ''dc:'' @ channelId m) ''Discord message stored'']"
  using assms by (simp add: onMessageCreate_def Let_def)

lemma onMessageCreate_bot: "bot_flag (author m) \<Longrightarrow> onMessageCreate groups m = []"
  by (simp add: onMessageCreate_def)

lemma onMessageCreate_events:
  "e \<in> set (onMessageCreate groups m) \<Longrightarrow>
   (\<exists>j t n. e = OnChatMetadata j t n (lit ''discord'') False)
   \<or> (\<exists>j i. e = OnMessage j i) \<or> (\<exists>l j s. e = Log l j s)"
  by (auto simp: onMessageCreate_def Let_def split: if_splits option.splits)

lemma hello_passes:
  "\<not> bot_flag (author (hello_message False))" "truthy (guildId (hello_message False))"
  "channelId (hello_message False) \<noteq> []" "content (hello_message False) \<noteq> []"
  by (simp_all add: hello_message_def alice_def truthy_def lit_def)

lemma hello_jid: "lit ''dc:'' @ channelId (hello_message b) = lit ''dc:42''"
  by (simp add: hello_message_def lit_def)

lemma find_truthy_preferences:
  "List.find truthy (sender_preferences m) = Some v \<Longrightarrow> v = Some (senderName m)"
  by (auto simp: sender_preferences_def senderName_def or_else_def truthy_def
      split: option.splits if_splits)

text \<open>
  Claim C2. For an event that passes the three filters (author not a bot, guild and
  channel present, content not empty), the handler calls \<open>onChatMetadata\<close> exactly once;
  it calls \<open>onMessage\<close> not at all when the chat identifier \<open>dc:\<close> + channel id is absent
  from the registered groups, and exactly once when it is present.
\<close>

theorem registration_gate:
  assumes "\<not> bot_flag (author m)" and "truthy (guildId m)" and "channelId m \<noteq> []"
    and "content m \<noteq> []"
  shows "(groups (lit ''dc:'' @ channelId m) = None \<longrightarrow>
            length (filter is_onChatMetadata (onMessageCreate groups m)) = 1
          \<and> length (filter is_onMessage (onMessageCreate groups m)) = 0)
       \<and> (groups (lit ''dc:'' @ channelId m) \<noteq> None \<longrightarrow>
            length (filter is_onChatMetadata (onMessageCreate groups m)) = 1
          \<and> length (filter is_onMessage (onMessageCreate groups m)) = 1)"
proof (intro conjI impI)
  assume none: "groups (lit ''dc:'' @ channelId m) = None"
  from onMessageCreate_unregistered [where groups = groups and m = m, OF assms none] obtain name where
    "onMessageCreate groups m =
     [OnChatMetadata (lit ''dc:'' @ channelId m) (createdAt m) name (lit ''discord'') False,
      Log LogDebug (lit ''dc:'' @ channelId m) ''Message from unregistered Discord channel'']" ..
  then show "length (filter is_onChatMetadata (onMessageCreate groups m)) = 1"
    and "length (filter is_onMessage (onMessageCreate groups m)) = 0"
    by simp_all
next
  assume "groups (lit ''dc:'' @ channelId m) \<noteq> None"
  then obtain g where some: "groups (lit ''dc:'' @ channelId m) = Some g" by blast
  from onMessageCreate_registered [where groups = groups and m = m, OF assms some] obtain name where
    "onMessageCreate groups m =
     [OnChatMetadata (lit ''dc:'' @ channelId m) (createdAt m) name (lit ''discord'') False,
      OnMessage (lit ''dc:'' @ channelId m)
        \<lparr>inbound_id = message_id m, chat_jid = lit ''dc:'' @ channelId m,
         sender = user_id (author m), sender_name = senderName m,
         inbound_content = content m, timestamp = createdAt m,
         is_from_me = False, is_bot_message = False\<rparr>,
      Log LogInfo (lit ''dc:'' @ channelId m) ''Discord message stored'']" ..
  then show "length (filter is_onChatMetadata (onMessageCreate groups m)) = 1"
    and "length (filter is_onMessage (onMessageCreate groups m)) = 1"
    by simp_all
qed

theorem registration_gate_witness:
  "length (filter is_onChatMetadata (onMessageCreate no_group (hello_message False))) = 1
   \<and> length (filter is_onMessage (onMessageCreate no_group (hello_message False))) = 0
   \<and> length (filter is_onChatMetadata (onMessageCreate one_group (hello_message False))) = 1
   \<and> length (filter is_onMessage (onMessageCreate one_group (hello_message False))) = 1"
proof -
  have a: "no_group (lit ''dc:'' @ channelId (hello_message False)) = None"
    by (simp add: no_group_def)
  have b: "one_group (lit ''dc:'' @ channelId (hello_message False)) \<noteq> None"
    by (simp add: hello_jid one_group_def)
  from registration_gate [OF hello_passes, of no_group] a
    registration_gate [OF hello_passes, of one_group] b
  show ?thesis by blast
qed

text \<open>
  Claim C3. For an event whose author carries the bot flag, the handler makes no
  \<open>onMessage\<close> call and no \<open>onChatMetadata\<close> call.
\<close>

theorem bot_author_ignored:
  assumes "bot_flag (author m)"
  shows "filter is_onMessage (onMessageCreate groups m) = []
       \<and> filter is_onChatMetadata (onMessageCreate groups m) = []"
  by (simp add: onMessageCreate_bot [OF assms])

theorem bot_author_ignored_witness:
  "bot_flag (author (hello_message True))
   \<and> filter is_onMessage (onMessageCreate one_group (hello_message True)) = []
   \<and> filter is_onChatMetadata (onMessageCreate one_group (hello_message True)) = []"
proof -
  have h: "bot_flag (author (hello_message True))"
    by (simp add: hello_message_def alice_def)
  from h bot_author_ignored [OF h, of one_group] show ?thesis by simp
qed

text \<open>
  Claim C9. Every \<open>onChatMetadata\<close> call the handler makes passes \<open>false\<close> as its
  direct-conversation flag.
\<close>

theorem metadata_never_direct:
  assumes "OnChatMetadata j t n p d \<in> set (onMessageCreate groups m)"
  shows "d = False"
  using onMessageCreate_events [OF assms] by auto

theorem metadata_never_direct_witness:
  "\<exists>j t n p d. onMessageCreate no_group (hello_message False) =
      [OnChatMetadata j t n p d,
       Log LogDebug (lit ''dc:42'') ''Message from unregistered Discord channel'']
     \<and> d = False"
proof -
  have none: "no_group (lit ''dc:'' @ channelId (hello_message False)) = None"
    by (simp add: no_group_def)
  from onMessageCreate_unregistered [where groups = no_group and m = "hello_message False",
      OF hello_passes none] obtain name where
    run: "onMessageCreate no_group (hello_message False) =
     [OnChatMetadata (lit ''dc:'' @ channelId (hello_message False))
        (createdAt (hello_message False)) name (lit ''discord'') False,
      Log LogDebug (lit ''dc:'' @ channelId (hello_message False))
        ''Message from unregistered Discord channel'']" ..
  then have "OnChatMetadata (lit ''dc:'' @ channelId (hello_message False))
        (createdAt (hello_message False)) name (lit ''discord'') False
      \<in> set (onMessageCreate no_group (hello_message False))"
    by simp
  from metadata_never_direct [OF this] run show ?thesis
    by (auto simp: hello_jid)
qed

text \<open>
  Claim C6. The sender's display name is the first truthy (present and non-empty) entry
  of the preference list member display name, global display name, username; for an
  empty member display name, global name \<open>Al\<close> and username \<open>alice123\<close> it is \<open>Al\<close>.
\<close>

theorem senderName_first_nonempty:
  "(\<forall>v. List.find truthy (sender_preferences m) = Some v \<longrightarrow> v = Some (senderName m))
   \<and> (map_option displayName (member_opt m) = Some (lit '''')
        \<and> globalName (author m) = Some (lit ''Al'')
        \<and> username (author m) = lit ''alice123'' \<longrightarrow> senderName m = lit ''Al'')"
proof (intro conjI allI impI)
  fix v assume "List.find truthy (sender_preferences m) = Some v"
  then show "v = Some (senderName m)" by (rule find_truthy_preferences)
next
  assume "map_option displayName (member_opt m) = Some (lit '''')
        \<and> globalName (author m) = Some (lit ''Al'')
        \<and> username (author m) = lit ''alice123''"
  then show "senderName m = lit ''Al''"
    by (auto simp: senderName_def or_else_def lit_def)
qed

theorem senderName_first_nonempty_witness:
  "senderName (hello_message False) = lit ''Al''"
proof -
  have "map_option displayName (member_opt (hello_message False)) = Some (lit '''')
        \<and> globalName (author (hello_message False)) = Some (lit ''Al'')
        \<and> username (author (hello_message False)) = lit ''alice123''"
    by (simp add: hello_message_def alice_def)
  with senderName_first_nonempty [of "hello_message False"] show ?thesis by blast
qed

section \<open>Properties of the task-file producer\<close>








lemma decimal_17: "decimal 17 = ''17''"
  by code_simp

lemma fixed_digits_5: "fixed_digits 9 5 = ''000000005''"
  by code_simp

lemma date_s_N_example: "date_s_N (at_time 17 5) = ''17000000005''"
  by (simp add: date_s_N_def at_time_def decimal_17 fixed_digits_5)

lemma task_file_example:
  "task_file ''/srv/tasks'' (at_time 17 5) = ''/srv/tasks/sync_17000000005.json''"
  by (simp add: task_file_def date_s_N_example)

lemma js_plain_append: "js_plain (a @ b) \<longleftrightarrow> js_plain a \<and> js_plain b"
  by (auto simp: js_plain_def)

lemma of_char_digit_char: "d < 10 \<Longrightarrow> of_char (digit_char d) = 48 + d"
  by (simp add: digit_char_def)

lemma js_plain_Nil: "js_plain []"
  by (simp add: js_plain_def)

lemma digit_char_neq:
  assumes "d < 10" and "(of_char c :: nat) < 48 \<or> 57 < (of_char c :: nat)"
  shows "digit_char d \<noteq> c"
proof
  assume "digit_char d = c"
  then have "(of_char c :: nat) = 48 + d" using of_char_digit_char [OF assms(1)] by simp
  with assms show False by simp
qed

lemma js_plain_digit: "d < 10 \<Longrightarrow> js_plain [digit_char d]"
proof -
  assume d: "d < 10"
  have "digit_char d \<noteq> CHR 0x27" by (rule digit_char_neq [OF d]) simp
  moreover have "digit_char d \<noteq> CHR 0x5C" by (rule digit_char_neq [OF d]) simp
  moreover have "digit_char d \<noteq> CHR 0x0A" by (rule digit_char_neq [OF d]) simp
  moreover have "digit_char d \<noteq> CHR 0x0D" by (rule digit_char_neq [OF d]) simp
  ultimately show ?thesis by (auto simp: js_plain_def)
qed

lemma js_plain_decimal: "js_plain (decimal n)"
proof (induction n rule: decimal.induct)
  case (1 n)
  show ?case
  proof (cases "n < 10")
    case True
    then show ?thesis by (subst decimal.simps) (simp add: js_plain_digit)
  next
    case False
    with 1 show ?thesis
      by (subst decimal.simps) (simp add: js_plain_append js_plain_digit)
  qed
qed

lemma js_plain_fixed_digits: "js_plain (fixed_digits k n)"
  by (induction k arbitrary: n) (simp_all add: js_plain_Nil js_plain_append js_plain_digit)

lemma js_plain_task_file: "js_plain (task_file d t) \<longleftrightarrow> js_plain d"
proof -
  have a: "js_plain ''/sync_''" and b: "js_plain ''.json''"
    by (simp_all add: js_plain_def)
  have "js_plain (task_file d t) \<longleftrightarrow>
      js_plain d \<and> js_plain ''/sync_'' \<and> js_plain (decimal (seconds t))
      \<and> js_plain (fixed_digits 9 (nanoseconds t)) \<and> js_plain ''.json''"
    by (simp only: task_file_def date_s_N_def js_plain_append conj_assoc)
  then show ?thesis
    by (simp only: a b js_plain_decimal js_plain_fixed_digits simp_thms)
qed






lemma write_ipc_task_quoted_directory:
  "write_ipc_task ''/srv/it's/tasks'' p (working_sys nr) t fs = (Inl NodeFailed, fs)"
proof -
  have "\<not> js_plain (task_file ''/srv/it's/tasks'' t)"
    by (simp add: js_plain_task_file) (simp add: js_plain_def)
  then show ?thesis
    by (simp add: write_ipc_task_def working_sys_def Let_def)
qed



end
